theory Spec2Isabelle
  imports Complex_Main
begin

section \<open>Excitation-to-activation dynamics of the Hill-type muscle notebook\<close>

text \<open>
  The notebook \<^verbatim>\<open>hilltype_muscle_model.ipynb\<close> defines three small numerical functions,
  \<^verbatim>\<open>get_u\<close>, \<^verbatim>\<open>tau\<close> and \<^verbatim>\<open>dydt\<close>, and a driver \<^verbatim>\<open>do_it\<close> that builds a time grid and hands
  \<^verbatim>\<open>dydt\<close> to an ODE solver. Python floats are modelled as the real numbers, so rounding
  is not part of this development. The one operation of these functions that can fail,
  the division \<^verbatim>\<open>/\<close>, is modelled with its failure as a value.
\<close>

subsection \<open>Python's true division\<close>

datatype py_error = ZeroDivisionError

text \<open>
  \<^verbatim>\<open>x / y\<close> on Python floats raises \<^verbatim>\<open>ZeroDivisionError\<close> when \<^verbatim>\<open>y\<close> is zero. (On
  one-element numpy arrays, as the solver passes them, the same condition gives
  \<^verbatim>\<open>inf\<close> or \<^verbatim>\<open>nan\<close> with a warning; in both cases there is no real-valued result.)
\<close>

definition truediv :: "real \<Rightarrow> real \<Rightarrow> py_error + real" where
  "truediv x y = (if y = 0 then Inl ZeroDivisionError else Inr (x / y))"

subsection \<open>The excitation generator\<close>

text \<open>
  \<^verbatim>\<open>pulse_start = 0.2\<close>
  \<^verbatim>\<open>u = pulse_amplitude if (t > pulse_start) & (t < (pulse_start + pulse_duration)) else 0\<close>
\<close>

definition get_u :: "real \<Rightarrow> real \<Rightarrow> real \<Rightarrow> real" where
  "get_u t pulse_amplitude pulse_duration =
     (let pulse_start = 0.2
      in if t > pulse_start \<and> t < pulse_start + pulse_duration then pulse_amplitude else 0)"

subsection \<open>The effective time constant\<close>

text \<open>
  \<^verbatim>\<open>t_act = 0.001\<close>, \<^verbatim>\<open>t_deact = 0.080\<close>
  \<^verbatim>\<open>return t_act * (0.5 + 1.5 * a) if u > a else t_deact / (0.5 + 1.5 * a)\<close>
\<close>

definition tau :: "real \<Rightarrow> real \<Rightarrow> py_error + real" where
  "tau a u =
     (let t_act = 0.001; t_deact = 0.080
      in if u > a then Inr (t_act * (0.5 + 1.5 * a)) else truediv t_deact (0.5 + 1.5 * a))"

subsection \<open>The right-hand side of the activation equation\<close>

text \<open>
  \<^verbatim>\<open>a = y\<close>
  \<^verbatim>\<open>u = get_u(t, pulse_amplitude, pulse_duration)\<close>
  \<^verbatim>\<open>dydt = (u - a) / tau(a, u)\<close>
  An error raised by \<^verbatim>\<open>tau\<close> propagates; otherwise the quotient is formed, and raises when
  the time constant is zero.
\<close>

definition dydt :: "real \<Rightarrow> real \<Rightarrow> real \<Rightarrow> real \<Rightarrow> py_error + real" where
  "dydt y t pulse_amplitude pulse_duration =
     (let a = y;
          u = get_u t pulse_amplitude pulse_duration
      in case tau a u of
           Inl e \<Rightarrow> Inl e
         | Inr tc \<Rightarrow> truediv (u - a) tc)"

subsection \<open>The quotient of \<^verbatim>\<open>dydt\<close> as a function of state and excitation\<close>

text \<open>
  The last assignment of \<^verbatim>\<open>dydt\<close>, \<^verbatim>\<open>(u - a) / tau(a, u)\<close>, read as a function of its two
  free variables \<^verbatim>\<open>a\<close> and \<^verbatim>\<open>u\<close>.
\<close>

definition rhs :: "real \<Rightarrow> real \<Rightarrow> py_error + real" where
  "rhs a u = (case tau a u of Inl e \<Rightarrow> Inl e | Inr tc \<Rightarrow> truediv (u - a) tc)"

subsection \<open>The driver: step size, initial condition, time grid and solve\<close>

definition dt :: real where
  "dt = 0.0001"

definition a0 :: real where
  "a0 = 0"

text \<open>
  \<^verbatim>\<open>np.arange(stop)\<close> is numpy's, not the notebook's. Its documented result for a floating
  point \<^verbatim>\<open>stop\<close> is the values \<^verbatim>\<open>0, 1, 2, ...\<close> below \<^verbatim>\<open>stop\<close>, of which there are
  \<^verbatim>\<open>ceil(stop)\<close> (none when \<^verbatim>\<open>stop\<close> is not positive).
\<close>

definition np_arange :: "real \<Rightarrow> real list" where
  "np_arange stop = map real [0 ..< nat \<lceil>stop\<rceil>]"

text \<open>\<^verbatim>\<open>t = np.arange(total_duration/dt) * dt\<close>; \<^verbatim>\<open>dt\<close> is a non-zero constant.\<close>

definition time_grid :: "real \<Rightarrow> real list" where
  "time_grid total_duration = map (\<lambda>x. x * dt) (np_arange (total_duration / dt))"

text \<open>\<^verbatim>\<open>u = [get_u(x, pulse_amplitude, pulse_duration) for x in t]\<close>\<close>

definition excitation_trace :: "real \<Rightarrow> real \<Rightarrow> real \<Rightarrow> real list" where
  "excitation_trace pulse_duration pulse_amplitude total_duration =
     map (\<lambda>x. get_u x pulse_amplitude pulse_duration) (time_grid total_duration)"

text \<open>
  \<^verbatim>\<open>a = odeint(dydt, a0, t, args=(pulse_amplitude, pulse_duration))\<close>. The solver is
  scipy's and is a parameter here: it receives the right-hand side with the two extra
  arguments fixed, the initial condition and the time grid.
\<close>

definition do_it_solve ::
  "((real \<Rightarrow> real \<Rightarrow> py_error + real) \<Rightarrow> real \<Rightarrow> real list \<Rightarrow> 'r) \<Rightarrow> real \<Rightarrow> real \<Rightarrow> real \<Rightarrow> 'r" where
  "do_it_solve odeint pulse_duration pulse_amplitude total_duration =
     odeint (\<lambda>y t. dydt y t pulse_amplitude pulse_duration) a0 (time_grid total_duration)"

subsection \<open>What the solver is asked for\<close>

text \<open>
  Modelled from the spec: the solver \<^verbatim>\<open>odeint\<close> is scipy's and its code is not part of the
  notebook. The spec gives its responsibility: to solve the scalar initial value problem
  \<open>da/dt = (u(t) - a) / tau(a, u(t))\<close>, \<open>a(0) = 0\<close>, over the time grid, producing the
  activation trace \<open>a(t\<^sub>0), a(t\<^sub>1), \<dots>\<close> aligned with the grid. A function \<open>a\<close> solves the
  activation equation on \<open>[t0, t1]\<close> when it is continuous there and, at every interior
  time other than the two edges of the pulse (where the excitation jumps), \<^verbatim>\<open>dydt\<close>
  returns a value and that value is the derivative of \<open>a\<close>. The trace of a solution is
  its values on the time grid. Rounding and the solver's discretisation error are outside
  this model.
\<close>

definition solves_activation_ode :: "real \<Rightarrow> real \<Rightarrow> real \<Rightarrow> real \<Rightarrow> (real \<Rightarrow> real) \<Rightarrow> bool" where
  "solves_activation_ode pulse_amplitude pulse_duration t0 t1 a \<longleftrightarrow>
     continuous_on {t0..t1} a \<and>
     (\<forall>t\<in>{t0<..<t1}. t \<noteq> 0.2 \<longrightarrow> t \<noteq> 0.2 + pulse_duration \<longrightarrow>
        (\<exists>d. dydt (a t) t pulse_amplitude pulse_duration = Inr d \<and> (a has_real_derivative d) (at t)))"

section \<open>Basic facts\<close>

lemma truediv_nonzero: "y \<noteq> 0 \<Longrightarrow> truediv x y = Inr (x / y)"
  by (simp add: truediv_def)

lemma truediv_zero: "truediv x 0 = Inl ZeroDivisionError"
  by (simp add: truediv_def)

lemma tau_act: "a < u \<Longrightarrow> tau a u = Inr (0.001 * (0.5 + 1.5 * a))"
  by (simp add: tau_def)

lemma tau_deact: "u \<le> a \<Longrightarrow> tau a u = truediv 0.080 (0.5 + 1.5 * a)"
  by (simp add: tau_def)

lemma denom_pos: "0 \<le> a \<Longrightarrow> 0 < 0.5 + 1.5 * (a::real)"
  by simp

lemma tau_deact_value: "u \<le> a \<Longrightarrow> 0.5 + 1.5 * a \<noteq> 0 \<Longrightarrow> tau a u = Inr (0.080 / (0.5 + 1.5 * a))"
  by (simp add: tau_def truediv_def)

text \<open>
  At \<open>a = -1/3\<close> the denominator \<open>0.5 + 1.5 * a\<close> is zero and the deactivating branch
  fails.
\<close>

lemma tau_singular: "tau (- (1 / 3)) (- 1) = Inl ZeroDivisionError"
  by (simp add: tau_def truediv_def)

lemma dydt_rhs:
  "dydt y t pulse_amplitude pulse_duration = rhs y (get_u t pulse_amplitude pulse_duration)"
  by (simp add: dydt_def rhs_def Let_def)

lemma denom_pos_third: "- (1 / 3) < a \<Longrightarrow> 0 < 0.5 + 1.5 * (a::real)"
  by simp

lemma rhs_act:
  assumes "0 < 0.5 + 1.5 * a" and "a < u"
  shows "rhs a u = Inr (1000 * ((u - a) / (0.5 + 1.5 * a)))"
  using assms by (simp add: rhs_def tau_def truediv_def)

lemma rhs_deact:
  assumes "0 < 0.5 + 1.5 * a" and "u \<le> a"
  shows "rhs a u = Inr (12.5 * ((u - a) * (0.5 + 1.5 * a)))"
  using assms by (simp add: rhs_def tau_def truediv_def)

lemma flip_factor:
  fixes u a d :: real
  shows "(u - a) * d = - ((a - u) * d)"
  by (simp add: algebra_simps)

lemma rhs_sign:
  assumes "0 < 0.5 + 1.5 * a"
  shows "\<exists>d. rhs a u = Inr d \<and> (a < u \<longrightarrow> 0 \<le> d) \<and> (u \<le> a \<longrightarrow> d \<le> 0)"
proof (cases "a < u")
  case True
  have "0 \<le> 1000 * ((u - a) / (0.5 + 1.5 * a))"
    using assms True by (intro mult_nonneg_nonneg divide_nonneg_pos) simp_all
  moreover have "\<not> u \<le> a"
    using True by simp
  ultimately show ?thesis
    using rhs_act [OF assms True] by blast
next
  case False
  then have le: "u \<le> a"
    by simp
  have "0 \<le> (a - u) * (0.5 + 1.5 * a)"
    using assms le by (intro mult_nonneg_nonneg) simp_all
  then have nonpos: "(u - a) * (0.5 + 1.5 * a) \<le> 0"
    by (simp only: flip_factor [of u a] neg_le_0_iff_le)
  have "(0::real) \<le> 12.5"
    by simp
  then have "12.5 * ((u - a) * (0.5 + 1.5 * a)) \<le> 0"
    using nonpos by (rule mult_nonneg_nonpos)
  then show ?thesis
    using rhs_deact [OF assms le] False by blast
qed

lemma rhs_switching_surface:
  assumes "0 \<le> a"
  shows "rhs a a = Inr 0"
    and "truediv (a - a) (0.001 * (0.5 + 1.5 * a)) = Inr 0"
    and "truediv (a - a) (0.080 / (0.5 + 1.5 * a)) = Inr 0"
  using assms by (simp_all add: rhs_deact truediv_def)

section \<open>The excitation pulse\<close>

text \<open>
  C1. For every time \<open>t\<close>, amplitude and duration, \<open>get_u\<close> returns the amplitude when
  \<open>0.2 < t < 0.2 + pulse_duration\<close> and 0 otherwise; in particular it returns 0 at both
  endpoints \<open>t = 0.2\<close> and \<open>t = 0.2 + pulse_duration\<close> of the pulse.
\<close>

theorem get_u_open_pulse:
  "(0.2 < t \<and> t < 0.2 + pulse_duration \<longrightarrow> get_u t pulse_amplitude pulse_duration = pulse_amplitude)
   \<and> (\<not> (0.2 < t \<and> t < 0.2 + pulse_duration) \<longrightarrow> get_u t pulse_amplitude pulse_duration = 0)
   \<and> get_u 0.2 pulse_amplitude pulse_duration = 0
   \<and> get_u (0.2 + pulse_duration) pulse_amplitude pulse_duration = 0"
  by (simp add: get_u_def)

theorem get_u_open_pulse_witness:
  "get_u 0.3 1 0.2 = 1 \<and> get_u 0.1 1 0.2 = 0 \<and> get_u 0.2 1 0.2 = 0 \<and> get_u 0.4 1 0.2 = 0"
  using get_u_open_pulse [where t = "0.3" and pulse_amplitude = 1 and pulse_duration = "0.2"]
    get_u_open_pulse [where t = "0.1" and pulse_amplitude = 1 and pulse_duration = "0.2"]
  by simp

section \<open>The effective time constant\<close>

text \<open>
  C2. For every activation \<open>a\<close> and excitation \<open>u\<close>, \<open>tau a u\<close> is \<open>0.001 * (0.5 + 1.5 * a)\<close>
  when \<open>u > a\<close> and is the quotient \<open>0.080 / (0.5 + 1.5 * a)\<close> when \<open>u \<le> a\<close>: the activating
  branch is taken exactly when \<open>u\<close> is strictly greater than \<open>a\<close>, with the constants
  \<open>t_act = 0.001\<close> and \<open>t_deact = 0.080\<close>. The quotient is the program's division; wherever
  its denominator is not zero it is the real quotient.
\<close>

theorem tau_branches:
  "(a < u \<longrightarrow> tau a u = Inr (0.001 * (0.5 + 1.5 * a)))
   \<and> (u \<le> a \<longrightarrow> tau a u = truediv 0.080 (0.5 + 1.5 * a))
   \<and> (u \<le> a \<and> 0.5 + 1.5 * a \<noteq> 0 \<longrightarrow> tau a u = Inr (0.080 / (0.5 + 1.5 * a)))"
  by (simp add: tau_def truediv_def)

theorem tau_branches_witness:
  "tau 0 1 = Inr 0.0005 \<and> tau 1 0 = Inr 0.04 \<and> tau 0.5 0.5 = Inr 0.064"
  using tau_branches [where a = 0 and u = 1] tau_branches [where a = 1 and u = 0]
    tau_branches [where a = "0.5" and u = "0.5"]
  by (simp add: truediv_def)

text \<open>
  C9. On the physical domain \<open>a \<ge> 0\<close> the denominator \<open>0.5 + 1.5 * a\<close> is not zero, so
  \<open>tau\<close> returns a value, for every \<open>u\<close>, and that value is strictly positive; hence the
  quotient \<open>(u - a) / tau a u\<close> returns a value for every \<open>u\<close>, and so does \<open>dydt\<close>.
\<close>

theorem tau_total_positive:
  assumes "0 \<le> a"
  shows "0.5 + 1.5 * a \<noteq> 0
         \<and> (\<exists>tc. tau a u = Inr tc \<and> 0 < tc)
         \<and> (\<exists>d. rhs a u = Inr d)
         \<and> (\<exists>d. dydt a t pulse_amplitude pulse_duration = Inr d)"
proof -
  have d: "0 < 0.5 + 1.5 * a"
    using assms by (rule denom_pos)
  have pos: "\<exists>tc. tau a u = Inr tc \<and> 0 < tc"
  proof (cases "a < u")
    case True
    then have "tau a u = Inr (0.001 * (0.5 + 1.5 * a))"
      by (rule tau_act)
    moreover have "0 < 0.001 * (0.5 + 1.5 * a)"
      using d by simp
    ultimately show ?thesis
      by blast
  next
    case False
    then have "tau a u = Inr (0.080 / (0.5 + 1.5 * a))"
      using d by (intro tau_deact_value) simp_all
    moreover have "0 < 0.080 / (0.5 + 1.5 * a)"
      using d by (intro divide_pos_pos) simp_all
    ultimately show ?thesis
      by blast
  qed
  have val: "\<exists>d. rhs a v = Inr d" for v
    using rhs_sign [OF d, of v] by blast
  have "\<exists>d. dydt a t pulse_amplitude pulse_duration = Inr d"
    unfolding dydt_rhs by (rule val)
  with d pos val show ?thesis
    by simp
qed

theorem tau_total_positive_witness:
  "(0::real) \<le> 1 \<and> (\<exists>tc. tau 1 0 = Inr tc \<and> 0 < tc) \<and> (\<exists>d. rhs 1 0 = Inr d)
   \<and> (\<exists>d. dydt 1 0.5 1 0.2 = Inr d)"
  using tau_total_positive [where a = 1 and u = 0 and t = "0.5" and pulse_amplitude = 1 and pulse_duration = "0.2"]
  by simp

section \<open>The right-hand side\<close>

text \<open>
  C3. For every state \<open>a\<close>, time \<open>t\<close>, amplitude and duration, \<open>dydt\<close> is \<open>(u - a) / tau a u\<close>
  with \<open>u = get_u t pulse_amplitude pulse_duration\<close>: it returns that quotient whenever
  \<open>tau\<close> returns a non-zero time constant, and fails exactly when \<open>tau\<close> fails or returns
  zero. The solve in \<open>do_it\<close> is started from the initial condition \<open>a(0) = 0\<close>.
\<close>

theorem dydt_is_rate:
  "(\<forall>tc. tau a (get_u t pulse_amplitude pulse_duration) = Inr tc \<and> tc \<noteq> 0 \<longrightarrow>
        dydt a t pulse_amplitude pulse_duration
          = Inr ((get_u t pulse_amplitude pulse_duration - a) / tc))
   \<and> (tau a (get_u t pulse_amplitude pulse_duration) = Inr 0 \<longrightarrow>
        dydt a t pulse_amplitude pulse_duration = Inl ZeroDivisionError)
   \<and> (\<forall>e. tau a (get_u t pulse_amplitude pulse_duration) = Inl e \<longrightarrow>
        dydt a t pulse_amplitude pulse_duration = Inl e)
   \<and> do_it_solve solver pulse_duration pulse_amplitude total_duration
        = solver (\<lambda>y t. dydt y t pulse_amplitude pulse_duration) 0 (time_grid total_duration)"
  by (simp add: dydt_def truediv_def do_it_solve_def a0_def)

theorem dydt_is_rate_witness:
  "tau 0 (get_u 0.3 1 0.2) = Inr 0.0005 \<and> dydt 0 0.3 1 0.2 = Inr 2000"
proof -
  have tc: "tau 0 (get_u 0.3 1 0.2) = Inr 0.0005"
    by (simp add: tau_def get_u_def)
  have nz: "(0.0005::real) \<noteq> 0"
    by simp
  have "dydt 0 0.3 1 0.2 = Inr ((get_u 0.3 1 0.2 - 0) / 0.0005)"
    using dydt_is_rate [where a = 0 and t = "0.3" and pulse_amplitude = 1 and pulse_duration = "0.2"] tc nz
    by blast
  then have "dydt 0 0.3 1 0.2 = Inr 2000"
    by (simp add: get_u_def)
  with tc show ?thesis
    by simp
qed

text \<open>
  C5. For every \<open>a\<close> in \<open>[0,1]\<close> and every \<open>t\<close>, the right-hand side returns a value that is
  non-negative whenever the excitation at \<open>t\<close> exceeds \<open>a\<close> and non-positive whenever the
  excitation at \<open>t\<close> is at most \<open>a\<close>.
\<close>

theorem dydt_sign_per_branch:
  assumes "0 \<le> a" and "a \<le> 1"
  shows "\<exists>d. dydt a t pulse_amplitude pulse_duration = Inr d
           \<and> (a < get_u t pulse_amplitude pulse_duration \<longrightarrow> 0 \<le> d)
           \<and> (get_u t pulse_amplitude pulse_duration \<le> a \<longrightarrow> d \<le> 0)"
proof -
  have "0 < 0.5 + 1.5 * a"
    using assms(1) by (rule denom_pos)
  then show ?thesis
    unfolding dydt_rhs by (rule rhs_sign)
qed

theorem dydt_sign_per_branch_witness:
  "(0::real) \<le> 0.5 \<and> (0.5::real) \<le> 1
   \<and> (\<exists>d. dydt 0.5 0.3 1 0.2 = Inr d \<and> 0 \<le> d)
   \<and> (\<exists>d. dydt 0.5 0.1 1 0.2 = Inr d \<and> d \<le> 0)"
proof -
  have lo: "(0::real) \<le> 0.5" and hi: "(0.5::real) \<le> 1"
    by simp_all
  have u1: "0.5 < get_u 0.3 1 0.2" and u0: "get_u 0.1 1 0.2 \<le> 0.5"
    by (simp_all add: get_u_def)
  show ?thesis
    using dydt_sign_per_branch [OF lo hi, where t = "0.3" and pulse_amplitude = 1 and pulse_duration = "0.2"]
      dydt_sign_per_branch [OF lo hi, where t = "0.1" and pulse_amplitude = 1 and pulse_duration = "0.2"]
      lo hi u1 u0
    by blast
qed

section \<open>Degenerate pulses\<close>

text \<open>
  C10. \<open>get_u\<close> validates nothing and has no failing operation: when the pulse duration
  is zero or negative the interval \<open>(0.2, 0.2 + pulse_duration)\<close> is empty and \<open>get_u\<close>
  returns 0 at every time, for every amplitude.
\<close>

theorem get_u_degenerate_duration:
  assumes "pulse_duration \<le> 0"
  shows "{x::real. 0.2 < x \<and> x < 0.2 + pulse_duration} = {}
         \<and> get_u t pulse_amplitude pulse_duration = 0"
  using assms by (auto simp add: get_u_def)

theorem get_u_degenerate_duration_witness:
  "(- 0.1::real) \<le> 0 \<and> get_u 0.15 1 (- 0.1) = 0 \<and> get_u 0.25 1 0 = 0"
  using get_u_degenerate_duration [where pulse_duration = "- 0.1" and t = "0.15" and pulse_amplitude = 1]
    get_u_degenerate_duration [where pulse_duration = 0 and t = "0.25" and pulse_amplitude = 1]
  by simp

section \<open>The time grid\<close>

lemma dt_pos: "0 < dt"
  by (simp add: dt_def)

lemma time_grid_length: "length (time_grid total_duration) = nat \<lceil>total_duration / dt\<rceil>"
  by (simp add: time_grid_def np_arange_def)

lemma time_grid_nth:
  "i < length (time_grid total_duration) \<Longrightarrow> time_grid total_duration ! i = real i * dt"
  by (simp add: time_grid_def np_arange_def)

lemma time_grid_increasing: "sorted_wrt (<) (time_grid total_duration)"
  using dt_pos by (simp add: sorted_wrt_iff_nth_less time_grid_length time_grid_nth)

lemma time_grid_nonempty:
  assumes "0 < total_duration"
  shows "time_grid total_duration \<noteq> []"
proof -
  have "0 < total_duration / dt"
    using assms dt_pos by simp
  then have "0 < \<lceil>total_duration / dt\<rceil>"
    by (simp only: zero_less_ceiling)
  then have "0 < length (time_grid total_duration)"
    by (simp add: time_grid_length)
  then show ?thesis
    by blast
qed

lemma time_grid_hd:
  assumes "0 < total_duration"
  shows "hd (time_grid total_duration) = 0"
proof -
  have ne: "time_grid total_duration \<noteq> []"
    using assms by (rule time_grid_nonempty)
  then have "hd (time_grid total_duration) = time_grid total_duration ! 0"
    by (simp add: hd_conv_nth)
  also have "\<dots> = real 0 * dt"
    using ne by (intro time_grid_nth) simp
  finally show ?thesis
    by simp
qed

lemma time_grid_last:
  assumes "0 < total_duration"
  shows "last (time_grid total_duration) = (real_of_int \<lceil>total_duration / dt\<rceil> - 1) * dt"
proof -
  let ?n = "nat \<lceil>total_duration / dt\<rceil>"
  have ne: "time_grid total_duration \<noteq> []"
    using assms by (rule time_grid_nonempty)
  then have "0 < length (time_grid total_duration)"
    by blast
  then have n: "0 < ?n"
    by (simp only: time_grid_length)
  have "last (time_grid total_duration) = time_grid total_duration ! (?n - 1)"
    using ne by (simp add: last_conv_nth time_grid_length)
  also have "\<dots> = real (?n - 1) * dt"
    using n by (intro time_grid_nth) (simp add: time_grid_length)
  also have "real (?n - 1) = real_of_int \<lceil>total_duration / dt\<rceil> - 1"
  proof -
    have "1 \<le> ?n"
      using n by linarith
    then have "real (?n - 1) = real ?n - 1"
      by (simp only: of_nat_diff of_nat_1)
    also have "real ?n = real_of_int (int ?n)"
      by simp
    also have "int ?n = \<lceil>total_duration / dt\<rceil>"
      using n by linarith
    finally show ?thesis .
  qed
  finally show ?thesis .
qed

lemma time_grid_last_bounds:
  assumes "0 < total_duration"
  shows "total_duration - dt \<le> last (time_grid total_duration)"
    and "last (time_grid total_duration) < total_duration"
proof -
  let ?x = "total_duration / dt"
  have x: "?x * dt = total_duration"
    using dt_pos by simp
  have "(?x - 1) * dt \<le> (real_of_int \<lceil>?x\<rceil> - 1) * dt"
    using dt_pos by (intro mult_right_mono) simp_all
  then show "total_duration - dt \<le> last (time_grid total_duration)"
    using x by (simp add: time_grid_last [OF assms] algebra_simps)
  have "real_of_int \<lceil>?x\<rceil> - 1 < ?x"
    by linarith
  then have "(real_of_int \<lceil>?x\<rceil> - 1) * dt < ?x * dt"
    using dt_pos by (intro mult_strict_right_mono)
  then show "last (time_grid total_duration) < total_duration"
    using x by (simp add: time_grid_last [OF assms])
qed

lemma time_grid_multiple:
  assumes "0 < total_duration" and "total_duration / dt \<in> \<int>"
  shows "length (time_grid total_duration) = nat \<lfloor>total_duration / dt\<rfloor>"
    and "last (time_grid total_duration) = total_duration - dt"
proof -
  let ?x = "total_duration / dt"
  have c: "real_of_int \<lceil>?x\<rceil> = ?x" and f: "\<lfloor>?x\<rfloor> = \<lceil>?x\<rceil>"
    using assms(2) by (auto elim!: Ints_cases)
  show "length (time_grid total_duration) = nat \<lfloor>?x\<rfloor>"
    by (simp add: time_grid_length f)
  have "last (time_grid total_duration) = (?x - 1) * dt"
    by (simp only: time_grid_last [OF assms(1)] c)
  also have "\<dots> = total_duration - dt"
    using dt_pos by (simp add: algebra_simps)
  finally show "last (time_grid total_duration) = total_duration - dt" .
qed

text \<open>
  The sampled excitation has one value per grid point, each of them 0 or the amplitude.
\<close>

lemma excitation_trace_length:
  "length (excitation_trace pulse_duration pulse_amplitude total_duration)
     = length (time_grid total_duration)"
  by (simp add: excitation_trace_def)

lemma excitation_trace_values:
  assumes "x \<in> set (excitation_trace pulse_duration pulse_amplitude total_duration)"
  shows "x = 0 \<or> x = pulse_amplitude"
  using assms by (auto simp add: excitation_trace_def get_u_def)

text \<open>
  C8, as stated, says that the length of the grid is the integer part of
  \<open>total_duration / dt\<close> and that its last point is \<open>total_duration - dt\<close>. For a total
  duration of 1.00005 the quotient is 10000.5: the grid has 10001 points, not 10000, and
  its last point is 1, not 0.99995.
\<close>

theorem time_grid_length_counterexample:
  "length (time_grid 1.00005) = 10001
   \<and> nat \<lfloor>1.00005 / dt\<rfloor> = 10000
   \<and> length (time_grid 1.00005) \<noteq> nat \<lfloor>1.00005 / dt\<rfloor>
   \<and> last (time_grid 1.00005) = 1
   \<and> last (time_grid 1.00005) \<noteq> 1.00005 - dt"
  by (simp add: time_grid_length time_grid_last dt_def)

text \<open>
  C8, amended. The step is \<open>dt = 0.0001\<close>; the \<open>i\<close>-th element of the grid is \<open>i * dt\<close> for
  every index \<open>i\<close>, and the grid is strictly increasing. Its length is the ceiling of
  \<open>total_duration / dt\<close>. For a positive total duration it starts at 0 and its last point
  is \<open>(ceiling (total_duration / dt) - 1) * dt\<close>, which is at least \<open>total_duration - dt\<close>
  and below \<open>total_duration\<close>. When \<open>total_duration / dt\<close> is an integer, the length is the
  integer part of \<open>total_duration / dt\<close> and the last point is \<open>total_duration - dt\<close>.
\<close>

theorem time_grid_uniform:
  "dt = 0.0001
   \<and> length (time_grid total_duration) = nat \<lceil>total_duration / dt\<rceil>
   \<and> (\<forall>i < length (time_grid total_duration). time_grid total_duration ! i = real i * dt)
   \<and> sorted_wrt (<) (time_grid total_duration)
   \<and> (0 < total_duration \<longrightarrow>
         hd (time_grid total_duration) = 0
         \<and> last (time_grid total_duration) = (real_of_int \<lceil>total_duration / dt\<rceil> - 1) * dt
         \<and> total_duration - dt \<le> last (time_grid total_duration)
         \<and> last (time_grid total_duration) < total_duration)
   \<and> (0 < total_duration \<and> total_duration / dt \<in> \<int> \<longrightarrow>
         length (time_grid total_duration) = nat \<lfloor>total_duration / dt\<rfloor>
         \<and> last (time_grid total_duration) = total_duration - dt)"
  using time_grid_length time_grid_nth time_grid_increasing time_grid_hd time_grid_last
    time_grid_last_bounds time_grid_multiple
  by (simp add: dt_def [symmetric]) (simp add: dt_def)

theorem time_grid_uniform_witness:
  "(0::real) < 1 \<and> 1 / dt \<in> \<int>
   \<and> length (time_grid 1) = 10000
   \<and> hd (time_grid 1) = 0
   \<and> time_grid 1 ! 5000 = 0.5
   \<and> last (time_grid 1) = 0.9999"
proof -
  have i: "1 / dt \<in> \<int>"
    by (simp add: dt_def)
  have len: "length (time_grid 1) = 10000"
    using time_grid_uniform [where total_duration = 1] by (simp add: dt_def)
  have "\<forall>i < length (time_grid 1). time_grid 1 ! i = real i * dt"
    using time_grid_uniform [where total_duration = 1] by blast
  then have "time_grid 1 ! 5000 = real 5000 * dt"
    using len by simp
  then have mid: "time_grid 1 ! 5000 = 0.5"
    by (simp add: dt_def)
  have "hd (time_grid 1) = 0 \<and> last (time_grid 1) = 1 - dt"
    using time_grid_uniform [where total_duration = 1] i by simp
  then have ends: "hd (time_grid 1) = 0 \<and> last (time_grid 1) = 0.9999"
    by (simp add: dt_def)
  show ?thesis
    using i len mid ends by simp
qed

section \<open>Lipschitz continuity of the quotient on the unit square\<close>

text \<open>
  On the unit square the quotient is \<open>1000 * (u - a) / (0.5 + 1.5 * a)\<close> on the activating
  side and \<open>12.5 * (u - a) * (0.5 + 1.5 * a)\<close> on the deactivating side. Two points on the
  same side are compared through the cross term \<open>(u1 - a1) * p - (u2 - a2) * q\<close>; two
  points on different sides have values of opposite sign, each bounded by its distance to
  the switching surface.
\<close>

subsection \<open>Linear arithmetic, stated once\<close>

lemma combine_cross:
  fixes A B N X Y :: real
  assumes "A \<le> 2 * (X + Y)" and "B \<le> 3 / 2 * X" and "N \<le> A + B" and "0 \<le> Y"
  shows "N \<le> 7 / 2 * (X + Y)"
  using assms by (simp add: distrib_left)

lemma combine_act:
  fixes N S V :: real
  assumes "N \<le> 7 / 2 * S" and "V \<le> 1000 * (4 * N)"
  shows "V \<le> 14000 * S"
  using assms by linarith

lemma combine_deact:
  fixes N S V :: real
  assumes "N \<le> 7 / 2 * S" and "V = 12.5 * N" and "0 \<le> S"
  shows "V \<le> 14000 * S"
  using assms by linarith

lemma combine_mixed:
  fixes x z a1 a2 u1 u2 :: real
  assumes "0 \<le> x" and "x \<le> 2 * (u1 - a1)" and "0 \<le> z" and "z \<le> (a2 - u2) * 2"
  shows "\<bar>1000 * x - 12.5 * (- z)\<bar> \<le> 14000 * (\<bar>a1 - a2\<bar> + \<bar>u1 - u2\<bar>)"
  using assms by (simp add: abs_if distrib_left)

subsection \<open>Bounds for the two branch expressions\<close>

lemma cross_bound:
  fixes a1 a2 u1 u2 p q :: real
  assumes "\<bar>u2 - a2\<bar> \<le> 1" and "\<bar>p\<bar> \<le> 2" and "\<bar>p - q\<bar> \<le> 3 / 2 * \<bar>a1 - a2\<bar>"
  shows "\<bar>(u1 - a1) * p - (u2 - a2) * q\<bar> \<le> 7 / 2 * (\<bar>a1 - a2\<bar> + \<bar>u1 - u2\<bar>)"
proof -
  have split: "(u1 - a1) * p - (u2 - a2) * q = ((u1 - u2) - (a1 - a2)) * p + (u2 - a2) * (p - q)"
    by (simp add: algebra_simps)
  have "\<bar>((u1 - u2) - (a1 - a2)) * p\<bar> = \<bar>(u1 - u2) - (a1 - a2)\<bar> * \<bar>p\<bar>"
    by (rule abs_mult)
  also have "\<dots> \<le> (\<bar>u1 - u2\<bar> + \<bar>a1 - a2\<bar>) * 2"
    using assms(2) by (intro mult_mono) (simp_all add: abs_triangle_ineq4)
  finally have first: "\<bar>((u1 - u2) - (a1 - a2)) * p\<bar> \<le> 2 * (\<bar>a1 - a2\<bar> + \<bar>u1 - u2\<bar>)"
    by simp
  have "\<bar>(u2 - a2) * (p - q)\<bar> = \<bar>u2 - a2\<bar> * \<bar>p - q\<bar>"
    by (rule abs_mult)
  also have "\<dots> \<le> 1 * (3 / 2 * \<bar>a1 - a2\<bar>)"
    using assms(1,3) by (intro mult_mono) simp_all
  finally have second: "\<bar>(u2 - a2) * (p - q)\<bar> \<le> 3 / 2 * \<bar>a1 - a2\<bar>"
    by simp
  have "\<bar>(u1 - a1) * p - (u2 - a2) * q\<bar> \<le> \<bar>((u1 - u2) - (a1 - a2)) * p\<bar> + \<bar>(u2 - a2) * (p - q)\<bar>"
    unfolding split by (rule abs_triangle_ineq)
  then show ?thesis
    by (rule combine_cross [OF first second]) simp
qed

lemma quotient_bound:
  fixes x y p q :: real
  assumes "1 / 2 \<le> p" and "1 / 2 \<le> q"
  shows "\<bar>x / q - y / p\<bar> \<le> 4 * \<bar>x * p - y * q\<bar>"
proof -
  have p: "0 < p" and q: "0 < q"
    using assms by simp_all
  have "1 / 2 * (1 / 2) \<le> q * p"
    using assms by (intro mult_mono) simp_all
  then have qp: "1 / 4 \<le> q * p"
    by simp
  have "x / q - y / p = (x * p - y * q) / (q * p)"
    using p q by (simp add: field_simps)
  then have "\<bar>x / q - y / p\<bar> = \<bar>x * p - y * q\<bar> / (q * p)"
    using p q by (simp add: abs_mult)
  also have "\<dots> \<le> \<bar>x * p - y * q\<bar> / (1 / 4)"
    using qp by (intro divide_left_mono) simp_all
  finally show ?thesis
    by simp
qed

lemma scaled_diff:
  fixes c x y :: real
  assumes "0 \<le> c"
  shows "\<bar>c * x - c * y\<bar> = c * \<bar>x - y\<bar>"
proof -
  have "c * x - c * y = c * (x - y)"
    by (rule right_diff_distrib [symmetric])
  then show ?thesis
    using assms by (simp only: abs_mult abs_of_nonneg)
qed

lemma denom_bounds:
  fixes a1 a2 :: real
  assumes "0 \<le> a1" "a1 \<le> 1" "0 \<le> a2" "a2 \<le> 1"
  shows "1 / 2 \<le> 0.5 + 1.5 * a1" and "\<bar>0.5 + 1.5 * a1\<bar> \<le> 2"
    and "\<bar>(0.5 + 1.5 * a1) - (0.5 + 1.5 * a2)\<bar> \<le> 3 / 2 * \<bar>a1 - a2\<bar>"
  using assms by (simp_all add: abs_if)

lemma lipschitz_act:
  fixes a1 a2 u1 u2 :: real
  assumes "0 \<le> a1" "a1 \<le> 1" "0 \<le> a2" "a2 \<le> 1" "0 \<le> u1" "u1 \<le> 1" "0 \<le> u2" "u2 \<le> 1"
  shows "\<bar>1000 * ((u1 - a1) / (0.5 + 1.5 * a1)) - 1000 * ((u2 - a2) / (0.5 + 1.5 * a2))\<bar>
           \<le> 14000 * (\<bar>a1 - a2\<bar> + \<bar>u1 - u2\<bar>)"
proof -
  let ?p = "0.5 + 1.5 * a2" and ?q = "0.5 + 1.5 * a1"
  let ?n = "(u1 - a1) * ?p - (u2 - a2) * ?q"
  have ua: "\<bar>u2 - a2\<bar> \<le> 1"
    using assms by (simp add: abs_if)
  have n: "\<bar>?n\<bar> \<le> 7 / 2 * (\<bar>a1 - a2\<bar> + \<bar>u1 - u2\<bar>)"
    using ua denom_bounds(2) [of a2 a1] denom_bounds(3) [of a2 a1] assms
    by (intro cross_bound) (simp_all add: abs_minus_commute)
  have "\<bar>1000 * ((u1 - a1) / ?q) - 1000 * ((u2 - a2) / ?p)\<bar>
          = 1000 * \<bar>(u1 - a1) / ?q - (u2 - a2) / ?p\<bar>"
    by (rule scaled_diff) simp
  also have "\<bar>(u1 - a1) / ?q - (u2 - a2) / ?p\<bar> \<le> 4 * \<bar>?n\<bar>"
    using denom_bounds(1) [of a2 a1] denom_bounds(1) [of a1 a2] assms by (intro quotient_bound)
  finally have "\<bar>1000 * ((u1 - a1) / ?q) - 1000 * ((u2 - a2) / ?p)\<bar> \<le> 1000 * (4 * \<bar>?n\<bar>)"
    by simp
  with n show ?thesis
    by (rule combine_act)
qed

lemma lipschitz_deact:
  fixes a1 a2 u1 u2 :: real
  assumes "0 \<le> a1" "a1 \<le> 1" "0 \<le> a2" "a2 \<le> 1" "0 \<le> u1" "u1 \<le> 1" "0 \<le> u2" "u2 \<le> 1"
  shows "\<bar>12.5 * ((u1 - a1) * (0.5 + 1.5 * a1)) - 12.5 * ((u2 - a2) * (0.5 + 1.5 * a2))\<bar>
           \<le> 14000 * (\<bar>a1 - a2\<bar> + \<bar>u1 - u2\<bar>)"
proof -
  let ?p = "0.5 + 1.5 * a1" and ?q = "0.5 + 1.5 * a2"
  let ?n = "(u1 - a1) * ?p - (u2 - a2) * ?q"
  have ua: "\<bar>u2 - a2\<bar> \<le> 1"
    using assms by (simp add: abs_if)
  have n: "\<bar>?n\<bar> \<le> 7 / 2 * (\<bar>a1 - a2\<bar> + \<bar>u1 - u2\<bar>)"
    using ua denom_bounds(2) [of a1 a2] denom_bounds(3) [of a1 a2] assms
    by (intro cross_bound) simp_all
  have "\<bar>12.5 * ((u1 - a1) * ?p) - 12.5 * ((u2 - a2) * ?q)\<bar> = 12.5 * \<bar>?n\<bar>"
    by (rule scaled_diff) simp
  with n show ?thesis
    by (rule combine_deact) simp
qed

lemma lipschitz_mixed:
  fixes a1 a2 u1 u2 :: real
  assumes "0 \<le> a1" "a1 \<le> 1" "0 \<le> a2" "a2 \<le> 1" "0 \<le> u1" "u1 \<le> 1" "0 \<le> u2" "u2 \<le> 1"
    and "a1 < u1" and "u2 \<le> a2"
  shows "\<bar>1000 * ((u1 - a1) / (0.5 + 1.5 * a1)) - 12.5 * ((u2 - a2) * (0.5 + 1.5 * a2))\<bar>
           \<le> 14000 * (\<bar>a1 - a2\<bar> + \<bar>u1 - u2\<bar>)"
proof -
  let ?x = "(u1 - a1) / (0.5 + 1.5 * a1)" and ?z = "(a2 - u2) * (0.5 + 1.5 * a2)"
  have x0: "0 \<le> ?x"
    using assms by (intro divide_nonneg_pos) simp_all
  have "?x \<le> (u1 - a1) / (1 / 2)"
    using assms by (intro divide_left_mono) simp_all
  then have x1: "?x \<le> 2 * (u1 - a1)"
    by simp
  have z1: "?z \<le> (a2 - u2) * 2"
    using assms by (intro mult_left_mono) simp_all
  have z0: "0 \<le> ?z"
    using assms by (intro mult_nonneg_nonneg) simp_all
  have y: "(u2 - a2) * (0.5 + 1.5 * a2) = - ?z"
    by (rule flip_factor)
  have "\<bar>1000 * ?x - 12.5 * (- ?z)\<bar> \<le> 14000 * (\<bar>a1 - a2\<bar> + \<bar>u1 - u2\<bar>)"
    using x0 x1 z0 z1 by (rule combine_mixed)
  then show ?thesis
    by (simp only: y)
qed


lemma unit_square_lipschitz:
  fixes a1 a2 u1 u2 :: real
  assumes "0 \<le> a1" "a1 \<le> 1" "0 \<le> a2" "a2 \<le> 1" "0 \<le> u1" "u1 \<le> 1" "0 \<le> u2" "u2 \<le> 1"
  shows "\<exists>d1 d2. rhs a1 u1 = Inr d1 \<and> rhs a2 u2 = Inr d2
           \<and> \<bar>d1 - d2\<bar> \<le> 14000 * (\<bar>a1 - a2\<bar> + \<bar>u1 - u2\<bar>)"
proof -
  have p1: "0 < 0.5 + 1.5 * a1" and p2: "0 < 0.5 + 1.5 * a2"
    using assms by (simp_all only: denom_pos)
  consider (aa) "a1 < u1" "a2 < u2" | (ad) "a1 < u1" "u2 \<le> a2"
    | (da) "u1 \<le> a1" "a2 < u2" | (dd) "u1 \<le> a1" "u2 \<le> a2"
    by linarith
  then show ?thesis
  proof cases
    case aa
    have "rhs a1 u1 = Inr (1000 * ((u1 - a1) / (0.5 + 1.5 * a1)))"
      and "rhs a2 u2 = Inr (1000 * ((u2 - a2) / (0.5 + 1.5 * a2)))"
      using p1 p2 aa by (simp_all only: rhs_act)
    then show ?thesis
      using lipschitz_act [OF assms] by blast
  next
    case ad
    have "rhs a1 u1 = Inr (1000 * ((u1 - a1) / (0.5 + 1.5 * a1)))"
      and "rhs a2 u2 = Inr (12.5 * ((u2 - a2) * (0.5 + 1.5 * a2)))"
      using p1 p2 ad by (simp_all only: rhs_act rhs_deact)
    then show ?thesis
      using lipschitz_mixed [OF assms ad] by blast
  next
    case da
    have "\<bar>12.5 * ((u1 - a1) * (0.5 + 1.5 * a1)) - 1000 * ((u2 - a2) / (0.5 + 1.5 * a2))\<bar>
            = \<bar>1000 * ((u2 - a2) / (0.5 + 1.5 * a2)) - 12.5 * ((u1 - a1) * (0.5 + 1.5 * a1))\<bar>"
      by (rule abs_minus_commute)
    also have "\<dots> \<le> 14000 * (\<bar>a2 - a1\<bar> + \<bar>u2 - u1\<bar>)"
      using assms da by (intro lipschitz_mixed)
    also have "\<dots> = 14000 * (\<bar>a1 - a2\<bar> + \<bar>u1 - u2\<bar>)"
      by (simp only: abs_minus_commute)
    finally have bound: "\<bar>12.5 * ((u1 - a1) * (0.5 + 1.5 * a1)) - 1000 * ((u2 - a2) / (0.5 + 1.5 * a2))\<bar>
            \<le> 14000 * (\<bar>a1 - a2\<bar> + \<bar>u1 - u2\<bar>)" .
    have "rhs a1 u1 = Inr (12.5 * ((u1 - a1) * (0.5 + 1.5 * a1)))"
      and "rhs a2 u2 = Inr (1000 * ((u2 - a2) / (0.5 + 1.5 * a2)))"
      using p1 p2 da by (simp_all only: rhs_act rhs_deact)
    then show ?thesis
      using bound by blast
  next
    case dd
    have "rhs a1 u1 = Inr (12.5 * ((u1 - a1) * (0.5 + 1.5 * a1)))"
      and "rhs a2 u2 = Inr (12.5 * ((u2 - a2) * (0.5 + 1.5 * a2)))"
      using p1 p2 dd by (simp_all only: rhs_deact)
    then show ?thesis
      using lipschitz_deact [OF assms] by blast
  qed
qed

subsection \<open>The kink at the switching surface\<close>

text \<open>
  For \<open>u = 0.5\<close> the slope in \<open>a\<close> is -800 just below \<open>a = 0.5\<close> and -15.625 just above.
  Adding \<open>c * (a - 0.5)\<close> for any \<open>c\<close> between 25 and 800 gives a function with a local
  minimum at 0.5, so a derivative there would have to be \<open>- c\<close> for each such \<open>c\<close>.
\<close>

lemma below_switch_nonneg:
  fixes c K P h y :: real
  assumes "c * P \<le> K" and "0 < P" and "y < h"
  shows "0 \<le> K * ((h - y) / P) + c * (y - h)"
proof -
  have "c \<le> K / P"
    using assms(1,2) by (simp add: pos_le_divide_eq)
  then have "c * (h - y) \<le> K / P * (h - y)"
    using assms(3) by (intro mult_right_mono) simp_all
  then show ?thesis
    by (simp add: algebra_simps)
qed

lemma above_switch_nonneg:
  fixes c k P h y :: real
  assumes "k * P \<le> c" and "h \<le> y"
  shows "0 \<le> k * ((h - y) * P) + c * (y - h)"
proof -
  have "k * P * (y - h) \<le> c * (y - h)"
    using assms by (intro mult_right_mono) simp_all
  then show ?thesis
    by (simp add: algebra_simps)
qed

lemma tilted_local_min:
  fixes f :: "real \<Rightarrow> real" and x c D r :: real
  assumes D: "(f has_real_derivative D) (at x)" and r: "0 < r"
    and m: "\<forall>y. \<bar>x - y\<bar> < r \<longrightarrow> f x \<le> f y + c * (y - x)"
  shows "D = - c"
proof -
  have "((\<lambda>y. f y + c * (y - x)) has_real_derivative D + c * (1 - 0)) (at x)"
    by (auto intro!: derivative_eq_intros D)
  moreover have "\<forall>y. \<bar>x - y\<bar> < r \<longrightarrow> f x + c * (x - x) \<le> f y + c * (y - x)"
    using m by simp
  ultimately have "D + c * (1 - 0) = 0"
    using r by (intro DERIV_local_min [where f = "\<lambda>y. f y + c * (y - x)" and x = x and d = r])
  then show ?thesis
    by simp
qed

lemma kink_local_min:
  fixes f :: "real \<Rightarrow> real" and c :: real
  assumes f: "\<forall>a\<in>{0..1}. rhs a 0.5 = Inr (f a)"
    and c: "25 \<le> c" "c \<le> 800"
    and y: "\<bar>0.5 - y\<bar> < 0.5"
  shows "f 0.5 \<le> f y + c * (y - 0.5)"
proof -
  have y01: "0 \<le> y" "y \<le> 1"
    using y by (simp_all add: abs_if split: if_splits)
  have "rhs 0.5 0.5 = Inr (f 0.5)"
    using f by simp
  moreover have "rhs 0.5 0.5 = Inr 0"
    by (rule rhs_switching_surface) simp
  ultimately have f0: "f 0.5 = 0"
    by simp
  have fy: "rhs y 0.5 = Inr (f y)"
    using f y01 by simp
  have pos: "0 < 0.5 + 1.5 * y"
    using y01(1) by (rule denom_pos)
  show ?thesis
  proof (cases "y < 0.5")
    case True
    have "rhs y 0.5 = Inr (1000 * ((0.5 - y) / (0.5 + 1.5 * y)))"
      using pos True by (rule rhs_act)
    with fy have val: "f y = 1000 * ((0.5 - y) / (0.5 + 1.5 * y))"
      by simp
    have "c * (0.5 + 1.5 * y) \<le> 800 * (0.5 + 1.5 * y)"
      using c y01 by (intro mult_right_mono) simp_all
    also have "\<dots> \<le> 1000"
      using True by simp
    finally have "0 \<le> 1000 * ((0.5 - y) / (0.5 + 1.5 * y)) + c * (y - 0.5)"
      using y01 True by (intro below_switch_nonneg) simp_all
    then show ?thesis
      unfolding f0 val .
  next
    case False
    then have "rhs y 0.5 = Inr (12.5 * ((0.5 - y) * (0.5 + 1.5 * y)))"
      using pos by (intro rhs_deact) simp_all
    with fy have val: "f y = 12.5 * ((0.5 - y) * (0.5 + 1.5 * y))"
      by simp
    have "12.5 * (0.5 + 1.5 * y) \<le> c"
      using c y01 by simp
    then have "0 \<le> 12.5 * ((0.5 - y) * (0.5 + 1.5 * y)) + c * (y - 0.5)"
      using False by (intro above_switch_nonneg) simp_all
    then show ?thesis
      unfolding f0 val .
  qed
qed

lemma kink_slope:
  fixes f :: "real \<Rightarrow> real" and c D :: real
  assumes f: "\<forall>a\<in>{0..1}. rhs a 0.5 = Inr (f a)"
    and c: "25 \<le> c" "c \<le> 800"
    and D: "(f has_real_derivative D) (at 0.5)"
  shows "D = - c"
proof -
  have m: "\<forall>y. \<bar>0.5 - y\<bar> < 0.5 \<longrightarrow> f 0.5 \<le> f y + c * (y - 0.5)"
    using kink_local_min [OF f c] by blast
  show ?thesis
    by (rule tilted_local_min [OF D _ m]) simp
qed

lemma rhs_not_differentiable:
  "\<not> (\<exists>f D. (\<forall>a\<in>{0..1}. rhs a 0.5 = Inr (f a)) \<and> (f has_real_derivative D) (at 0.5))"
proof
  assume "\<exists>f D. (\<forall>a\<in>{0..1}. rhs a 0.5 = Inr (f a)) \<and> (f has_real_derivative D) (at 0.5)"
  then obtain f D where f: "\<forall>a\<in>{0..1}. rhs a 0.5 = Inr (f a)"
    and D: "(f has_real_derivative D) (at 0.5)"
    by blast
  have "D = - 100"
    using f _ _ D by (rule kink_slope) simp_all
  moreover have "D = - 200"
    using f _ _ D by (rule kink_slope) simp_all
  ultimately show False
    by simp
qed

text \<open>
  C7. On the unit square \<open>a \<in> [0,1]\<close>, \<open>u \<in> [0,1]\<close> the quotient \<open>(u - a) / tau a u\<close>
  returns a value and is Lipschitz continuous in \<open>(a, u)\<close>, jointly and hence in \<open>a\<close> for
  every fixed \<open>u\<close>, with constant 14000 for the sum norm. Both branch expressions are 0 on
  the switching surface \<open>u = a\<close>, so the switch does not make the value jump. The
  function is not smooth: at \<open>u = 0.5\<close> it has no derivative in \<open>a\<close> at \<open>a = 0.5\<close>. The
  quotient is what \<open>dydt\<close> returns at the excitation of the given time.
\<close>

theorem rhs_lipschitz:
  assumes "a1 \<in> {0..1}" and "u1 \<in> {0..1}" and "a2 \<in> {0..1}" and "u2 \<in> {0..1}"
  shows "(\<exists>d1 d2. rhs a1 u1 = Inr d1 \<and> rhs a2 u2 = Inr d2
            \<and> \<bar>d1 - d2\<bar> \<le> 14000 * (\<bar>a1 - a2\<bar> + \<bar>u1 - u2\<bar>))
       \<and> rhs a1 a1 = Inr 0
       \<and> truediv (a1 - a1) (0.001 * (0.5 + 1.5 * a1)) = Inr 0
       \<and> truediv (a1 - a1) (0.080 / (0.5 + 1.5 * a1)) = Inr 0
       \<and> \<not> (\<exists>f D. (\<forall>a\<in>{0..1}. rhs a 0.5 = Inr (f a)) \<and> (f has_real_derivative D) (at 0.5))
       \<and> dydt a1 t pulse_amplitude pulse_duration = rhs a1 (get_u t pulse_amplitude pulse_duration)"
proof -
  have b: "0 \<le> a1" "a1 \<le> 1" "0 \<le> a2" "a2 \<le> 1" "0 \<le> u1" "u1 \<le> 1" "0 \<le> u2" "u2 \<le> 1"
    using assms by simp_all
  show ?thesis
    using unit_square_lipschitz [OF b] rhs_switching_surface [OF b(1)] rhs_not_differentiable
      dydt_rhs [of a1 t pulse_amplitude pulse_duration]
    by blast
qed

theorem rhs_lipschitz_witness:
  "(0::real) \<in> {0..1} \<and> (1::real) \<in> {0..1}
   \<and> rhs 0 1 = Inr 2000 \<and> rhs 1 0 = Inr (- 25)
   \<and> \<bar>2000 - (- 25)\<bar> \<le> 14000 * (\<bar>0 - 1\<bar> + \<bar>1 - (0::real)\<bar>)"
proof -
  have m: "(0::real) \<in> {0..1}" "(1::real) \<in> {0..1}"
    by simp_all
  have r1: "rhs 0 1 = Inr 2000" and r2: "rhs 1 0 = Inr (- 25)"
    by (simp_all add: rhs_def tau_def truediv_def)
  have "\<exists>d1 d2. rhs 0 1 = Inr d1 \<and> rhs 1 0 = Inr d2
            \<and> \<bar>d1 - d2\<bar> \<le> 14000 * (\<bar>0 - 1\<bar> + \<bar>1 - (0::real)\<bar>)"
    using rhs_lipschitz [OF m(1) m(2) m(2) m(1)] by blast
  then have "\<bar>2000 - (- 25)\<bar> \<le> 14000 * (\<bar>0 - 1\<bar> + \<bar>1 - (0::real)\<bar>)"
    using r1 r2 by auto
  then show ?thesis
    using m r1 r2 by blast
qed

section \<open>Solutions of the activation equation stay between 0 and the amplitude\<close>

text \<open>
  The argument is a first-exit argument. If a solution were above a bound \<open>M\<close> (at least
  the amplitude) at some time, then after the last time at which it is at most \<open>M\<close> it is
  above the excitation, so its derivative is not positive there and it cannot have risen.
  Below 0 the same argument is made on a stretch where the solution stays above \<open>-1/3\<close>,
  the value at which the time constant of the activating branch changes sign.
\<close>

subsection \<open>Monotonicity from the sign of the derivative, with finitely many exceptions\<close>

lemma nonincreasing_on_interval:
  fixes f :: "real \<Rightarrow> real"
  assumes xy: "x \<le> y" and c: "continuous_on {x..y} f"
    and d: "\<And>t. x < t \<Longrightarrow> t < y \<Longrightarrow> \<exists>d\<le>0. (f has_real_derivative d) (at t)"
  shows "f y \<le> f x"
proof (cases "x = y")
  case True
  then show ?thesis
    by simp
next
  case False
  with xy have lt: "x < y"
    by simp
  have "\<exists>l z. x < z \<and> z < y \<and> (f has_real_derivative l) (at z) \<and> f y - f x = (y - x) * l"
    using lt c
  proof (rule MVT)
    fix t
    assume "x < t" and "t < y"
    then show "f differentiable (at t)"
      using d by (auto simp add: real_differentiable_def)
  qed
  then obtain l z where z: "x < z" "z < y" and l: "(f has_real_derivative l) (at z)"
    and eq: "f y - f x = (y - x) * l"
    by blast
  from d [OF z] obtain e where e: "e \<le> 0" "(f has_real_derivative e) (at z)"
    by blast
  have "l = e"
    using l e(2) by (rule DERIV_unique)
  then have "(y - x) * l \<le> 0"
    using e(1) lt by (intro mult_nonneg_nonpos) simp_all
  with eq show ?thesis
    by simp
qed

lemma nonincreasing_except_finite:
  fixes f :: "real \<Rightarrow> real"
  assumes "finite E"
  shows "x \<le> y \<Longrightarrow> continuous_on {x..y} f \<Longrightarrow>
         (\<And>t. x < t \<Longrightarrow> t < y \<Longrightarrow> t \<notin> E \<Longrightarrow> \<exists>d\<le>0. (f has_real_derivative d) (at t)) \<Longrightarrow>
         f y \<le> f x"
  using assms
proof (induction E arbitrary: x y rule: finite_induct)
  case empty
  show ?case
    using empty(1,2)
  proof (rule nonincreasing_on_interval)
    show "\<exists>d\<le>0. (f has_real_derivative d) (at t)" if "x < t" "t < y" for t
      using that by (rule empty(3)) simp
  qed
next
  case (insert p E)
  show ?case
  proof (cases "x < p \<and> p < y")
    case True
    have "f p \<le> f x"
    proof (rule insert.IH)
      show "x \<le> p"
        using True by simp
      show "continuous_on {x..p} f"
        using insert.prems(2) by (rule continuous_on_subset) (use True in simp)
      show "\<exists>d\<le>0. (f has_real_derivative d) (at t)" if "x < t" "t < p" "t \<notin> E" for t
        using that True by (intro insert.prems(3)) simp_all
    qed
    moreover have "f y \<le> f p"
    proof (rule insert.IH)
      show "p \<le> y"
        using True by simp
      show "continuous_on {p..y} f"
        using insert.prems(2) by (rule continuous_on_subset) (use True in simp)
      show "\<exists>d\<le>0. (f has_real_derivative d) (at t)" if "p < t" "t < y" "t \<notin> E" for t
        using that True by (intro insert.prems(3)) simp_all
    qed
    ultimately show ?thesis
      by simp
  next
    case False
    show ?thesis
    proof (rule insert.IH)
      show "x \<le> y"
        by (rule insert.prems(1))
      show "continuous_on {x..y} f"
        by (rule insert.prems(2))
      show "\<exists>d\<le>0. (f has_real_derivative d) (at t)" if "x < t" "t < y" "t \<notin> E" for t
        using that False by (intro insert.prems(3)) auto
    qed
  qed
qed

lemma nondecreasing_except_finite:
  fixes f :: "real \<Rightarrow> real"
  assumes "finite E" and "x \<le> y" and "continuous_on {x..y} f"
    and d: "\<And>t. x < t \<Longrightarrow> t < y \<Longrightarrow> t \<notin> E \<Longrightarrow> \<exists>d\<ge>0. (f has_real_derivative d) (at t)"
  shows "f x \<le> f y"
proof -
  have "- f y \<le> - f x"
    using assms(1,2)
  proof (rule nonincreasing_except_finite)
    show "continuous_on {x..y} (\<lambda>t. - f t)"
      using assms(3) by (rule continuous_on_minus)
    fix t
    assume "x < t" "t < y" "t \<notin> E"
    then obtain e where "0 \<le> e" "(f has_real_derivative e) (at t)"
      using d by blast
    then have "- e \<le> 0" and "((\<lambda>t. - f t) has_real_derivative - e) (at t)"
      by (simp_all add: DERIV_minus)
    then show "\<exists>d\<le>0. ((\<lambda>t. - f t) has_real_derivative d) (at t)"
      by blast
  qed
  then show ?thesis
    by simp
qed

subsection \<open>Last and first times below a level\<close>

lemma last_time_le:
  fixes f :: "real \<Rightarrow> real"
  assumes "x \<le> y" and "continuous_on {x..y} f" and "f x \<le> c"
  shows "\<exists>m. x \<le> m \<and> m \<le> y \<and> f m \<le> c \<and> (\<forall>t. m < t \<and> t \<le> y \<longrightarrow> c < f t)"
proof -
  let ?S = "f -` {..c} \<inter> {x..y}"
  have "closed ?S"
    using closed_atMost assms(2) closed_atLeastAtMost by (rule closed_vimage_Int)
  with compact_Icc have "compact ({x..y} \<inter> ?S)"
    by (rule compact_Int_closed)
  moreover have "{x..y} \<inter> ?S = ?S"
    by blast
  ultimately have "compact ?S"
    by simp
  moreover have "?S \<noteq> {}"
    using assms(1,3) by auto
  ultimately obtain m where m: "m \<in> ?S" and top: "\<forall>t\<in>?S. t \<le> m"
    using compact_attains_sup by blast
  have "c < f t" if "m < t" "t \<le> y" for t
  proof (rule ccontr)
    assume "\<not> c < f t"
    then have "t \<in> ?S"
      using that m by simp
    with top have "t \<le> m"
      by blast
    with that show False
      by simp
  qed
  moreover have "x \<le> m" "m \<le> y" "f m \<le> c"
    using m by simp_all
  ultimately show ?thesis
    by blast
qed

lemma first_time_le:
  fixes f :: "real \<Rightarrow> real"
  assumes "x \<le> y" and "continuous_on {x..y} f" and "f y \<le> c"
  shows "\<exists>m. x \<le> m \<and> m \<le> y \<and> f m \<le> c \<and> (\<forall>t. x \<le> t \<and> t < m \<longrightarrow> c < f t)"
proof -
  let ?S = "f -` {..c} \<inter> {x..y}"
  have "closed ?S"
    using closed_atMost assms(2) closed_atLeastAtMost by (rule closed_vimage_Int)
  with compact_Icc have "compact ({x..y} \<inter> ?S)"
    by (rule compact_Int_closed)
  moreover have "{x..y} \<inter> ?S = ?S"
    by blast
  ultimately have "compact ?S"
    by simp
  moreover have "?S \<noteq> {}"
    using assms(1,3) by auto
  ultimately obtain m where m: "m \<in> ?S" and bot: "\<forall>t\<in>?S. m \<le> t"
    using compact_attains_inf by blast
  have "c < f t" if "x \<le> t" "t < m" for t
  proof (rule ccontr)
    assume "\<not> c < f t"
    then have "t \<in> ?S"
      using that m by simp
    with bot have "m \<le> t"
      by blast
    with that show False
      by simp
  qed
  moreover have "x \<le> m" "m \<le> y" "f m \<le> c"
    using m by simp_all
  ultimately show ?thesis
    by blast
qed


subsection \<open>The two bounds\<close>

lemma get_u_range:
  assumes "0 \<le> pulse_amplitude"
  shows "0 \<le> get_u t pulse_amplitude pulse_duration"
    and "get_u t pulse_amplitude pulse_duration \<le> pulse_amplitude"
  using assms by (simp_all add: get_u_def)

lemma ode_step:
  assumes "solves_activation_ode pulse_amplitude pulse_duration t0 t1 a"
    and "t0 < t" and "t < t1" and "t \<notin> {0.2, 0.2 + pulse_duration}"
  obtains d where "rhs (a t) (get_u t pulse_amplitude pulse_duration) = Inr d"
    and "(a has_real_derivative d) (at t)"
  using assms unfolding solves_activation_ode_def dydt_rhs by auto

lemma ode_continuous:
  assumes "solves_activation_ode pulse_amplitude pulse_duration t0 t1 a"
    and "t0 \<le> x" and "y \<le> t1"
  shows "continuous_on {x..y} a"
proof -
  have "continuous_on {t0..t1} a"
    using assms(1) by (simp add: solves_activation_ode_def)
  then show ?thesis
    by (rule continuous_on_subset) (use assms(2,3) in simp)
qed

lemma activation_upper:
  assumes sol: "solves_activation_ode pulse_amplitude pulse_duration t0 t1 a"
    and amp: "0 \<le> pulse_amplitude" "pulse_amplitude \<le> M"
    and start: "a t0 \<le> M"
    and t: "t0 \<le> t" "t \<le> t1"
  shows "a t \<le> M"
proof (rule ccontr)
  assume "\<not> a t \<le> M"
  then have above: "M < a t"
    by simp
  have "continuous_on {t0..t} a"
    using sol t by (intro ode_continuous [OF sol]) simp_all
  with t(1) have "\<exists>m. t0 \<le> m \<and> m \<le> t \<and> a m \<le> M \<and> (\<forall>s. m < s \<and> s \<le> t \<longrightarrow> M < a s)"
    using start by (rule last_time_le)
  then obtain m where m: "t0 \<le> m" "m \<le> t" "a m \<le> M"
    and after: "\<forall>s. m < s \<and> s \<le> t \<longrightarrow> M < a s"
    by blast
  have fin: "finite {0.2, 0.2 + pulse_duration}"
    by simp
  have "a t \<le> a m"
    using fin m(2)
  proof (rule nonincreasing_except_finite)
    show "continuous_on {m..t} a"
      using m(1) t(2) by (rule ode_continuous [OF sol])
    fix s
    assume s: "m < s" "s < t" "s \<notin> {0.2, 0.2 + pulse_duration}"
    then have "t0 < s" "s < t1"
      using m(1) t(2) by simp_all
    with sol obtain d where d: "rhs (a s) (get_u s pulse_amplitude pulse_duration) = Inr d"
      and der: "(a has_real_derivative d) (at s)"
      using s(3) by (rule ode_step)
    have big: "M < a s"
      using s after by simp
    have u: "get_u s pulse_amplitude pulse_duration \<le> a s"
      using get_u_range(2) [OF amp(1), of s pulse_duration] amp(2) big by simp
    have "0 \<le> a s"
      using amp big by simp
    then have "0 < 0.5 + 1.5 * a s"
      by (rule denom_pos)
    from rhs_sign [OF this, of "get_u s pulse_amplitude pulse_duration"] d u have "d \<le> 0"
      by auto
    with der show "\<exists>d\<le>0. (a has_real_derivative d) (at s)"
      by blast
  qed
  with m(3) above show False
    by simp
qed

lemma activation_lower:
  assumes sol: "solves_activation_ode pulse_amplitude pulse_duration t0 t1 a"
    and amp: "0 \<le> pulse_amplitude"
    and start: "0 \<le> a t0"
    and t: "t0 \<le> t" "t \<le> t1"
  shows "0 \<le> a t"
proof (rule ccontr)
  assume "\<not> 0 \<le> a t"
  then have neg: "a t < 0"
    by simp
  define c where "c = max (a t) (- (1 / 6))"
  have c: "a t \<le> c" "c < 0" "- (1 / 3) < c"
    using neg by (simp_all add: c_def)
  have "continuous_on {t0..t} a"
    using sol t by (intro ode_continuous [OF sol]) simp_all
  with t(1) have "\<exists>m. t0 \<le> m \<and> m \<le> t \<and> a m \<le> c \<and> (\<forall>s. t0 \<le> s \<and> s < m \<longrightarrow> c < a s)"
    using c(1) by (rule first_time_le)
  then obtain m2 where m2: "t0 \<le> m2" "m2 \<le> t" "a m2 \<le> c"
    and before: "\<forall>s. t0 \<le> s \<and> s < m2 \<longrightarrow> c < a s"
    by blast
  have "continuous_on {t0..m2} (\<lambda>s. - a s)"
    using m2 t by (intro continuous_on_minus ode_continuous [OF sol]) simp_all
  moreover have "- a t0 \<le> 0"
    using start by simp
  ultimately have "\<exists>m. t0 \<le> m \<and> m \<le> m2 \<and> - a m \<le> 0 \<and> (\<forall>s. m < s \<and> s \<le> m2 \<longrightarrow> 0 < - a s)"
    using m2(1) by (intro last_time_le)
  then obtain m where m: "t0 \<le> m" "m \<le> m2" "- a m \<le> 0"
    and after: "\<forall>s. m < s \<and> s \<le> m2 \<longrightarrow> 0 < - a s"
    by blast
  have fin: "finite {0.2, 0.2 + pulse_duration}"
    by simp
  have "a m \<le> a m2"
    using fin m(2)
  proof (rule nondecreasing_except_finite)
    show "continuous_on {m..m2} a"
      using m(1) m2(2) t(2) by (intro ode_continuous [OF sol]) simp_all
    fix s
    assume s: "m < s" "s < m2" "s \<notin> {0.2, 0.2 + pulse_duration}"
    then have "t0 < s" "s < t1"
      using m(1) m2(2) t(2) by simp_all
    with sol obtain d where d: "rhs (a s) (get_u s pulse_amplitude pulse_duration) = Inr d"
      and der: "(a has_real_derivative d) (at s)"
      using s(3) by (rule ode_step)
    have low: "a s < 0"
      using after s by simp
    have "c < a s"
      using s m(1) before by simp
    then have "- (1 / 3) < a s"
      using c(3) by simp
    then have pos: "0 < 0.5 + 1.5 * a s"
      by (rule denom_pos_third)
    have u: "a s < get_u s pulse_amplitude pulse_duration"
      using get_u_range(1) [OF amp, of s pulse_duration] low by simp
    from rhs_sign [OF pos, of "get_u s pulse_amplitude pulse_duration"] d u have "0 \<le> d"
      by auto
    with der show "\<exists>d\<ge>0. (a has_real_derivative d) (at s)"
      by blast
  qed
  with m(3) m2(3) c(2) show False
    by simp
qed

subsection \<open>Monotonicity of solutions on each branch\<close>

text \<open>
  While a solution stays above \<open>-1/3\<close> (in particular in \<open>[0,1]\<close>) and below the
  excitation it does not decrease; while it stays at or above the excitation it does not
  increase.
\<close>

lemma solution_nondecreasing_while_excited:
  assumes sol: "solves_activation_ode pulse_amplitude pulse_duration t0 t1 a"
    and x: "t0 \<le> x" "x \<le> y" "y \<le> t1"
    and below: "\<And>s. x < s \<Longrightarrow> s < y \<Longrightarrow> - (1 / 3) < a s \<and> a s < get_u s pulse_amplitude pulse_duration"
  shows "a x \<le> a y"
proof -
  have fin: "finite {0.2, 0.2 + pulse_duration}"
    by simp
  show ?thesis
    using fin x(2)
  proof (rule nondecreasing_except_finite)
    show "continuous_on {x..y} a"
      using x(1,3) by (rule ode_continuous [OF sol])
    fix s
    assume s: "x < s" "s < y" "s \<notin> {0.2, 0.2 + pulse_duration}"
    then have "t0 < s" "s < t1"
      using x by simp_all
    with sol obtain d where d: "rhs (a s) (get_u s pulse_amplitude pulse_duration) = Inr d"
      and der: "(a has_real_derivative d) (at s)"
      using s(3) by (rule ode_step)
    have "0 < 0.5 + 1.5 * a s"
      using below [OF s(1,2)] by (intro denom_pos_third) simp
    from rhs_sign [OF this, of "get_u s pulse_amplitude pulse_duration"] d below [OF s(1,2)]
    have "0 \<le> d"
      by auto
    with der show "\<exists>d\<ge>0. (a has_real_derivative d) (at s)"
      by blast
  qed
qed

lemma solution_nonincreasing_while_relaxing:
  assumes sol: "solves_activation_ode pulse_amplitude pulse_duration t0 t1 a"
    and x: "t0 \<le> x" "x \<le> y" "y \<le> t1"
    and above: "\<And>s. x < s \<Longrightarrow> s < y \<Longrightarrow> - (1 / 3) < a s \<and> get_u s pulse_amplitude pulse_duration \<le> a s"
  shows "a y \<le> a x"
proof -
  have fin: "finite {0.2, 0.2 + pulse_duration}"
    by simp
  show ?thesis
    using fin x(2)
  proof (rule nonincreasing_except_finite)
    show "continuous_on {x..y} a"
      using x(1,3) by (rule ode_continuous [OF sol])
    fix s
    assume s: "x < s" "s < y" "s \<notin> {0.2, 0.2 + pulse_duration}"
    then have "t0 < s" "s < t1"
      using x by simp_all
    with sol obtain d where d: "rhs (a s) (get_u s pulse_amplitude pulse_duration) = Inr d"
      and der: "(a has_real_derivative d) (at s)"
      using s(3) by (rule ode_step)
    have "0 < 0.5 + 1.5 * a s"
      using above [OF s(1,2)] by (intro denom_pos_third) simp
    from rhs_sign [OF this, of "get_u s pulse_amplitude pulse_duration"] d above [OF s(1,2)]
    have "d \<le> 0"
      by auto
    with der show "\<exists>d\<le>0. (a has_real_derivative d) (at s)"
      by blast
  qed
qed

subsection \<open>Grid points and constant solutions\<close>

lemma time_grid_range:
  assumes "x \<in> set (time_grid total_duration)"
  shows "0 \<le> x" and "x < total_duration"
proof -
  from assms obtain i where i: "i < length (time_grid total_duration)" and x: "x = time_grid total_duration ! i"
    by (auto simp add: in_set_conv_nth)
  have val: "x = real i * dt"
    using i x by (simp add: time_grid_nth)
  show "0 \<le> x"
    using dt_pos by (simp add: val)
  have "int i < \<lceil>total_duration / dt\<rceil>"
    using i by (simp add: time_grid_length)
  then have "real i < total_duration / dt"
    by linarith
  then have "real i * dt < total_duration"
    using dt_pos by (simp add: pos_less_divide_eq)
  then show "x < total_duration"
    by (simp add: val)
qed

lemma dydt_rest: "dydt 0 t 0 pulse_duration = Inr 0"
  by (simp add: dydt_def tau_def truediv_def get_u_def)

lemma constant_solves:
  assumes "\<And>t. t0 < t \<Longrightarrow> t < t1 \<Longrightarrow> t \<noteq> 0.2 \<Longrightarrow> t \<noteq> 0.2 + pulse_duration \<Longrightarrow>
             dydt c t pulse_amplitude pulse_duration = Inr 0"
  shows "solves_activation_ode pulse_amplitude pulse_duration t0 t1 (\<lambda>t. c)"
  unfolding solves_activation_ode_def
proof (intro conjI ballI impI)
  show "continuous_on {t0..t1} (\<lambda>t. c)"
    by (rule continuous_on_const)
  fix t
  assume "t \<in> {t0<..<t1}" and "t \<noteq> 0.2" and "t \<noteq> 0.2 + pulse_duration"
  then have "dydt c t pulse_amplitude pulse_duration = Inr 0"
    by (intro assms) simp_all
  moreover have "((\<lambda>t. c) has_real_derivative 0) (at t)"
    by (rule DERIV_const)
  ultimately show "\<exists>d. dydt c t pulse_amplitude pulse_duration = Inr d \<and> ((\<lambda>t. c) has_real_derivative d) (at t)"
    by blast
qed

lemma rest_solves: "solves_activation_ode 0 pulse_duration t0 t1 (\<lambda>t. 0)"
  by (rule constant_solves) (rule dydt_rest)


subsection \<open>An explicit decaying solution\<close>







subsection \<open>The invariant\<close>



text \<open>
  C6. With amplitude 0 the excitation is 0 at every time and \<open>dydt\<close> returns 0 at
  \<open>a = 0\<close>, so \<open>a = 0\<close> is an equilibrium: the zero function solves the activation
  equation. It is the only solution started from \<open>a(0) = 0\<close>: every such solution on
  \<open>[0, T]\<close> is 0 on all of \<open>[0, T]\<close> (in particular for \<open>T = total_duration\<close>), and so is
  every point of its trace on a time grid within \<open>[0, T]\<close>.
\<close>

theorem zero_amplitude_trace:
  "get_u t 0 pulse_duration = 0
   \<and> dydt 0 t 0 pulse_duration = Inr 0
   \<and> solves_activation_ode 0 pulse_duration 0 total_duration (\<lambda>t. 0)
   \<and> (\<forall>a T. solves_activation_ode 0 pulse_duration 0 T a \<and> a 0 = a0
         \<longrightarrow> (\<forall>t\<in>{0..T}. a t = 0)
             \<and> (set (time_grid total_duration) \<subseteq> {..T}
                  \<longrightarrow> (\<forall>x\<in>set (map a (time_grid total_duration)). x = 0)))
   \<and> set (time_grid total_duration) \<subseteq> {..total_duration}"
proof -
  have flat: "a t = 0"
    if sol: "solves_activation_ode 0 pulse_duration 0 T a" and init: "a 0 = a0"
      and t: "t \<in> {0..T}"
    for a T t
  proof -
    have "0 \<le> a t"
      by (rule activation_lower [OF sol]) (use t init in \<open>simp_all add: a0_def\<close>)
    moreover have "a t \<le> 0"
      by (rule activation_upper [OF sol]) (use t init in \<open>simp_all add: a0_def\<close>)
    ultimately show ?thesis
      by simp
  qed
  have trace: "x = 0"
    if sol: "solves_activation_ode 0 pulse_duration 0 T a" and init: "a 0 = a0"
      and grid: "set (time_grid total_duration) \<subseteq> {..T}"
      and x: "x \<in> set (map a (time_grid total_duration))"
    for a T x
  proof -
    from x obtain t where t: "t \<in> set (time_grid total_duration)" and xt: "x = a t"
      by auto
    have "t \<in> {0..T}"
      using time_grid_range(1) [OF t] grid t by auto
    then show ?thesis
      using flat [OF sol init] xt by simp
  qed
  have "get_u t 0 pulse_duration = 0"
    by (simp add: get_u_def)
  moreover have "set (time_grid total_duration) \<subseteq> {..total_duration}"
    using time_grid_range(2) [of _ total_duration] by (auto simp add: less_imp_le)
  ultimately show ?thesis
    using dydt_rest rest_solves flat trace by blast
qed

theorem zero_amplitude_trace_witness:
  "get_u 0.3 0 0.2 = 0 \<and> dydt 0 0.3 0 0.2 = Inr 0
   \<and> solves_activation_ode 0 0.2 0 1 (\<lambda>t. 0) \<and> (0::real) = a0
   \<and> map (\<lambda>t. 0) (time_grid 1) ! 5000 \<in> set (map (\<lambda>t. 0::real) (time_grid 1))
   \<and> map (\<lambda>t. 0) (time_grid 1) ! 5000 = (0::real)"
proof -
  note inst = zero_amplitude_trace [where t = "0.3" and pulse_duration = "0.2" and total_duration = 1]
  have i0: "(\<lambda>t::real. 0::real) 0 = a0"
    by (simp add: a0_def)
  have s: "solves_activation_ode 0 0.2 0 1 (\<lambda>t. 0)"
    using inst by blast
  have "(5000::nat) < length (map (\<lambda>t. 0::real) (time_grid 1))"
    by (simp add: time_grid_length dt_def)
  then have pt: "map (\<lambda>t. 0) (time_grid 1) ! 5000 \<in> set (map (\<lambda>t. 0::real) (time_grid 1))"
    by (rule nth_mem)
  have "set (time_grid 1) \<subseteq> {..1}"
    using inst by blast
  then have "map (\<lambda>t. 0) (time_grid 1) ! 5000 = (0::real)"
    using inst s i0 pt by blast
  then show ?thesis
    using inst s i0 pt by simp
qed

end
